theory Spec2Isabelle
  imports Complex_Main "HOL-Library.AList" "HOL-Library.Char_ord" "HOL-Library.List_Lexorder"
    "HOL-Library.Multiset"
begin

section \<open>Text primitives used by the deduplication engine\<close>

text \<open>
  Python strings are sequences of code points. A \<^typ>\<open>char\<close> is read as a code point
  below 256; the character classes below are the ones of Python's \<^verbatim>\<open>re\<close> module
  (\<^verbatim>\<open>\s\<close>, \<^verbatim>\<open>\w\<close>) and of \<^verbatim>\<open>str.lower\<close> on that range.
\<close>

definition is_space :: "char \<Rightarrow> bool" where
  "is_space c =
     (let n = (of_char c :: nat)
      in (9 \<le> n \<and> n \<le> 13) \<or> (28 \<le> n \<and> n \<le> 32) \<or> n = 133 \<or> n = 160)"

definition is_word_char :: "char \<Rightarrow> bool" where
  "is_word_char c =
     (let n = (of_char c :: nat)
      in (48 \<le> n \<and> n \<le> 57) \<or> (65 \<le> n \<and> n \<le> 90) \<or> n = 95 \<or> (97 \<le> n \<and> n \<le> 122)
         \<or> n = 170 \<or> n = 178 \<or> n = 179 \<or> n = 181 \<or> n = 185 \<or> n = 186
         \<or> (188 \<le> n \<and> n \<le> 190) \<or> (192 \<le> n \<and> n \<le> 214) \<or> (216 \<le> n \<and> n \<le> 246)
         \<or> 248 \<le> n)"

definition lower_char :: "char \<Rightarrow> char" where
  "lower_char c =
     (let n = (of_char c :: nat)
      in if (65 \<le> n \<and> n \<le> 90) \<or> (192 \<le> n \<and> n \<le> 222 \<and> n \<noteq> 215)
         then char_of (n + 32) else c)"

definition lower :: "string \<Rightarrow> string" where
  "lower s = map lower_char s"

text \<open>\<^verbatim>\<open>str.split()\<close> without arguments: the maximal runs of non-whitespace.\<close>

fun split_acc :: "string \<Rightarrow> string \<Rightarrow> string list" where
  "split_acc w [] = (if w = [] then [] else [w])"
| "split_acc w (c # cs) =
     (if is_space c then (if w = [] then split_acc [] cs else w # split_acc [] cs)
      else split_acc (w @ [c]) cs)"

definition split :: "string \<Rightarrow> string list" where
  "split s = split_acc [] s"

text \<open>\<^verbatim>\<open>sep.join(words)\<close>.\<close>

fun join :: "string \<Rightarrow> string list \<Rightarrow> string" where
  "join sep [] = []"
| "join sep [w] = w"
| "join sep (w # v # ws) = w @ sep @ join sep (v # ws)"

text \<open>\<^verbatim>\<open>re.sub(r'\s+', ' ', text)\<close>: every maximal run of whitespace becomes one blank.\<close>

fun collapse_ws :: "bool \<Rightarrow> string \<Rightarrow> string" where
  "collapse_ws in_run [] = []"
| "collapse_ws in_run (c # cs) =
     (if is_space c then (if in_run then collapse_ws True cs else CHR '' '' # collapse_ws True cs)
      else c # collapse_ws False cs)"

text \<open>\<^verbatim>\<open>re.sub(r'[#*\[\]()]', '', content)\<close>.\<close>

definition strip_markdown :: "string \<Rightarrow> string" where
  "strip_markdown s = filter (\<lambda>c. c \<notin> set ''#*[]()'') s"

text \<open>
  \<^verbatim>\<open>re.sub(r'http[s]?://\S+', '', text)\<close>. A match starts where the text reads
  \<^verbatim>\<open>http://\<close> or \<^verbatim>\<open>https://\<close> followed by at least one non-whitespace character, and
  it extends over every following non-whitespace character. The scanner carries the flag
  ``inside a match''; the characters of the prefix are themselves non-whitespace, so they
  are dropped by the same rule as the rest of the match.
\<close>

definition url_at :: "string \<Rightarrow> bool" where
  "url_at s =
     (case (if take 7 s = ''http://'' then Some (drop 7 s)
            else if take 8 s = ''https://'' then Some (drop 8 s) else None) of
        None \<Rightarrow> False
      | Some [] \<Rightarrow> False
      | Some (c # _) \<Rightarrow> \<not> is_space c)"

fun strip_urls_from :: "bool \<Rightarrow> string \<Rightarrow> string" where
  "strip_urls_from in_match [] = []"
| "strip_urls_from in_match (c # cs) =
     (if in_match then (if is_space c then c # strip_urls_from False cs
                        else strip_urls_from True cs)
      else if url_at (c # cs) then strip_urls_from True cs
      else c # strip_urls_from False cs)"

definition strip_urls :: "string \<Rightarrow> string" where
  "strip_urls s = strip_urls_from False s"

text \<open>\<^verbatim>\<open>re.search\<close> of the same pattern: some position of the text starts a match.\<close>

fun contains_url :: "string \<Rightarrow> bool" where
  "contains_url [] = False"
| "contains_url (c # cs) = (url_at (c # cs) \<or> contains_url cs)"

section \<open>The deduplication engine (\<^verbatim>\<open>dedup_engine.py\<close>)\<close>

definition STOP_WORDS :: "string list" where
  "STOP_WORDS =
    [''the'', ''a'', ''an'', ''and'', ''or'', ''but'', ''in'', ''on'', ''at'', ''to'', ''for'', ''of'',
     ''with'', ''by'', ''from'', ''up'', ''about'', ''into'', ''through'', ''during'', ''before'',
     ''after'', ''above'', ''below'', ''under'', ''between'', ''among'', ''amongst'',
     ''throughout'', ''within'', ''without'', ''toward'', ''towards'', ''until'', ''unless'',
     ''since'', ''while'', ''because'', ''although'', ''though'', ''if'', ''whether'', ''when'',
     ''where'', ''who'', ''whom'', ''whose'', ''which'', ''what'', ''how'', ''why'', ''this'',
     ''that'', ''these'', ''those'', ''i'', ''you'', ''he'', ''she'', ''it'', ''we'', ''they'', ''me'',
     ''him'', ''her'', ''us'', ''them'', ''my'', ''your'', ''his'', ''her'', ''its'', ''our'',
     ''their'', ''mine'', ''yours'', ''hers'', ''ours'', ''theirs'']"

text \<open>
  The library functions the engine calls and this repository does not define:
  \<^verbatim>\<open>hashlib.sha256(s.encode()).hexdigest()\<close>, \<^verbatim>\<open>hashlib.md5(s.encode()).hexdigest()\<close>,
  \<^verbatim>\<open>difflib.SequenceMatcher(None, a, b).ratio()\<close> and the float arithmetic of the
  interpreter. They are parameters of the model.

  A Python float is read as the real number it denotes. Every float operation gives the
  exact result rounded to a float: \<open>fl\<close> is that rounding (IEEE 754 binary64, round to
  nearest), so that \<^verbatim>\<open>a * b\<close> is \<open>fl (a * b)\<close>, the literal \<^verbatim>\<open>0.3\<close> is \<open>fl (3 / 10)\<close>
  and the true division of two integers is \<open>fl\<close> of their quotient. \<open>float_sum\<close> is the
  built-in \<^verbatim>\<open>sum\<close> on floats, which adds from left to right up to Python 3.11 and with a
  compensated sum from Python 3.12 on. Comparisons of floats are exact.
\<close>

record libs =
  sha256 :: "string \<Rightarrow> string"
  md5 :: "string \<Rightarrow> string"
  ratio :: "string \<Rightarrow> string \<Rightarrow> real"
  fl :: "real \<Rightarrow> real"
  float_sum :: "real list \<Rightarrow> real"

record ContentFingerprint =
  content_hash :: string
  title_hash :: string
  similarity_hash :: string
  word_count :: int
  timestamp :: int
  title :: string
  url :: string

text \<open>
  The deduplicator object together with the fingerprint file it rewrites
  (\<^verbatim>\<open>FINGERPRINT_FILE\<close>). \<^verbatim>\<open>fingerprints\<close> is a dict: an association list in insertion
  order, where storing under a key that is present keeps the key's position.
\<close>

record ContentDeduplicator =
  similarity_threshold :: real
  fingerprints :: "(string \<times> ContentFingerprint) list"
  title_cache :: "string set"
  content_cache :: "string set"
  fingerprint_file :: "ContentFingerprint list"

definition values_of :: "(string \<times> ContentFingerprint) list \<Rightarrow> ContentFingerprint list" where
  "values_of d = map snd d"

text \<open>
  \<^verbatim>\<open>_save_fingerprints\<close>: the whole dict is written out. An I/O error is logged and
  swallowed; \<open>io_ok\<close> says whether the write went through (a failed write is modelled as
  leaving the file as it was).
\<close>

definition save_fingerprints :: "bool \<Rightarrow> ContentDeduplicator \<Rightarrow> ContentDeduplicator" where
  "save_fingerprints io_ok s =
     (if io_ok then s\<lparr>fingerprint_file := values_of (fingerprints s)\<rparr> else s)"

definition add_to_cache :: "ContentDeduplicator \<Rightarrow> ContentFingerprint \<Rightarrow> ContentDeduplicator" where
  "add_to_cache s fp =
     s\<lparr>fingerprints := AList.update (content_hash fp) fp (fingerprints s),
       title_cache := insert (title_hash fp) (title_cache s),
       content_cache := insert (content_hash fp) (content_cache s)\<rparr>"

definition remove_from_cache :: "ContentDeduplicator \<Rightarrow> ContentFingerprint \<Rightarrow> ContentDeduplicator" where
  "remove_from_cache s fp =
     s\<lparr>fingerprints := AList.delete (content_hash fp) (fingerprints s),
       title_cache := title_cache s - {title_hash fp},
       content_cache := content_cache s - {content_hash fp}\<rparr>"

definition normalize_text :: "string \<Rightarrow> string" where
  "normalize_text text0 =
     (let text1 = lower text0;
          text2 = collapse_ws False text1;
          text3 = filter (\<lambda>c. is_word_char c \<or> is_space c) text2;
          words = filter (\<lambda>w. w \<notin> set STOP_WORDS \<and> length w > 2) (split text3)
      in join '' '' words)"

definition create_similarity_hash :: "libs \<Rightarrow> string \<Rightarrow> string" where
  "create_similarity_hash L text0 =
     (let normalized = normalize_text text0;
          words = split normalized;
          shingles = map (\<lambda>i. join '' '' (take 3 (drop i words))) [0..<length words - 2];
          sorted_shingles = sort (remdups shingles);
          shingle_text = join ''|'' sorted_shingles
      in md5 L shingle_text)"

definition create_content_fingerprint ::
  "libs \<Rightarrow> int \<Rightarrow> string \<Rightarrow> string \<Rightarrow> string \<Rightarrow> ContentFingerprint" where
  "create_content_fingerprint L now t c u =
     (let clean_content = strip_urls (strip_markdown c)
      in \<lparr>content_hash = sha256 L clean_content,
          title_hash = sha256 L (lower t),
          similarity_hash = create_similarity_hash L clean_content,
          word_count = int (length (split clean_content)),
          timestamp = now,
          title = t,
          url = u\<rparr>)"

definition is_duplicate_title :: "libs \<Rightarrow> ContentDeduplicator \<Rightarrow> string \<Rightarrow> bool" where
  "is_duplicate_title L s t = (sha256 L (lower t) \<in> title_cache s)"

definition is_duplicate_content :: "libs \<Rightarrow> ContentDeduplicator \<Rightarrow> string \<Rightarrow> bool" where
  "is_duplicate_content L s c = (sha256 L (strip_markdown c) \<in> content_cache s)"

definition length_similarity ::
  "libs \<Rightarrow> ContentFingerprint \<Rightarrow> ContentFingerprint \<Rightarrow> real" where
  "length_similarity L new_fp existing_fp =
     (let word_count_diff = \<bar>word_count existing_fp - word_count new_fp\<bar>;
          max_word_count = max (word_count existing_fp) (word_count new_fp)
      in if max_word_count > 0
         then fl L (1 - fl L (real_of_int word_count_diff / real_of_int max_word_count))
         else 0)"

definition calculate_similarity ::
  "libs \<Rightarrow> ContentFingerprint \<Rightarrow> ContentFingerprint \<Rightarrow> string \<Rightarrow> real" where
  "calculate_similarity L new_fp existing_fp t =
     (let similarity_metrics =
            [if similarity_hash new_fp = similarity_hash existing_fp then 1 else 0,
             ratio L (lower t) (lower (title existing_fp)),
             length_similarity L new_fp existing_fp];
          weights = [fl L (5 / 10), fl L (3 / 10), fl L (2 / 10)]
      in float_sum L
           (map (\<lambda>(metric, weight). fl L (metric * weight)) (zip similarity_metrics weights)))"

text \<open>
  \<^verbatim>\<open>find_similar_content\<close>. \<^verbatim>\<open>list.sort(key=..., reverse=True)\<close> is stable: entries
  with equal scores keep their order, which is what insertion sort on the negated score does.
\<close>

definition find_similar_content ::
  "libs \<Rightarrow> int \<Rightarrow> ContentDeduplicator \<Rightarrow> string \<Rightarrow> string \<Rightarrow> (ContentFingerprint \<times> real) list" where
  "find_similar_content L now s t c =
     (let fingerprint = create_content_fingerprint L now t c [];
          similar_content =
            map (\<lambda>existing_fp. (existing_fp, calculate_similarity L fingerprint existing_fp t))
              (filter (\<lambda>existing_fp.
                   content_hash existing_fp \<noteq> content_hash fingerprint
                   \<and> calculate_similarity L fingerprint existing_fp t \<ge> similarity_threshold s)
                 (values_of (fingerprints s)))
      in sort_key (\<lambda>x. - snd x) similar_content)"

definition add_content ::
  "libs \<Rightarrow> int \<Rightarrow> bool \<Rightarrow> ContentDeduplicator \<Rightarrow> string \<Rightarrow> string \<Rightarrow> string
     \<Rightarrow> bool \<times> ContentDeduplicator" where
  "add_content L now io_ok s t c u =
     (let fingerprint = create_content_fingerprint L now t c u
      in if content_hash fingerprint \<in> content_cache s then (False, s)
         else if title_hash fingerprint \<in> title_cache s then (False, s)
         else if find_similar_content L now s t c \<noteq> [] then (False, s)
         else (True, save_fingerprints io_ok (add_to_cache s fingerprint)))"

text \<open>The deduplicator as \<^verbatim>\<open>__init__\<close> leaves it when no fingerprint file exists.\<close>

definition empty_deduplicator :: "real \<Rightarrow> ContentDeduplicator" where
  "empty_deduplicator thr =
     \<lparr>similarity_threshold = thr, fingerprints = [], title_cache = {}, content_cache = {},
      fingerprint_file = []\<rparr>"

text \<open>
  IEEE 754 binary64 rounding (round to nearest, ties to even) of a real in the normal
  range: the real is scaled by a power of two into \<open>[2^52, 2^53)\<close>, that is from
  \<open>4503599627370496\<close> up to \<open>9007199254740992\<close>, rounded to an integer and scaled back. The
  search for the power of two starts at \<open>2^52\<close>, the scale of the reals from 1 up to 2.
\<close>

fun binade :: "nat \<Rightarrow> real \<Rightarrow> real \<Rightarrow> real" where
  "binade 0 x s = s"
| "binade (Suc n) x s =
     (if x * s < 4503599627370496 then binade n x (2 * s)
      else if 9007199254740992 \<le> x * s then binade n x (s / 2)
      else s)"

definition round_half_even :: "real \<Rightarrow> int" where
  "round_half_even y =
     (let f = \<lfloor>y\<rfloor>; r = y - of_int f
      in if r < 1 / 2 then f else if 1 / 2 < r then f + 1 else if even f then f else f + 1)"

definition binary64 :: "real \<Rightarrow> real" where
  "binary64 x =
     (if x = 0 then 0
      else let s = binade 2200 \<bar>x\<bar> 4503599627370496
           in sgn x * of_int (round_half_even (\<bar>x\<bar> * s)) / s)"

text \<open>The default \<^verbatim>\<open>similarity_threshold\<close>, the float \<^verbatim>\<open>0.8\<close>.\<close>

definition default_threshold :: real where
  "default_threshold = binary64 (8 / 10)"

text \<open>
  Stand-ins for the library functions in closed examples: digests without collisions (the
  tagged text itself); a ratio that is right on the cases the examples use, equal strings
  (\<open>1.0\<close>), the strings \<^verbatim>\<open>a\<close> and \<^verbatim>\<open>abcde\<close> (one matching character of six,
  \<^verbatim>\<open>2.0 * 1 / 6\<close>) and strings without a common character (\<open>0.0\<close>); binary64 rounding; and
  the sum from left to right, starting from \<open>0\<close>.
\<close>

definition example_ratio :: "string \<Rightarrow> string \<Rightarrow> real" where
  "example_ratio a b =
     (if a = b then 1
      else if (a = ''a'' \<and> b = ''abcde'') \<or> (a = ''abcde'' \<and> b = ''a'') then binary64 (1 / 3)
      else 0)"

definition float_add :: "real \<Rightarrow> real \<Rightarrow> real" where
  "float_add a b = binary64 (a + b)"

definition left_to_right_sum :: "real list \<Rightarrow> real" where
  "left_to_right_sum xs = foldl float_add 0 xs"

definition example_libs :: libs where
  "example_libs =
     \<lparr>sha256 = (\<lambda>s. ''sha256:'' @ s), md5 = (\<lambda>s. ''md5:'' @ s),
      ratio = example_ratio, fl = binary64, float_sum = left_to_right_sum\<rparr>"


text \<open>
  \<^verbatim>\<open>cleanup_old_fingerprints\<close>. Time is counted in microseconds, the resolution of
  \<^verbatim>\<open>datetime\<close>; \<^verbatim>\<open>timedelta(days=days)\<close> is \<open>days\<close> times 86400000000.
\<close>

definition cleanup_old_fingerprints ::
  "int \<Rightarrow> bool \<Rightarrow> ContentDeduplicator \<Rightarrow> int \<Rightarrow> ContentDeduplicator" where
  "cleanup_old_fingerprints now io_ok s days =
     (let cutoff = now - days * 86400000000;
          old_fingerprints = filter (\<lambda>fp. timestamp fp < cutoff) (values_of (fingerprints s));
          s' = fold (\<lambda>fp acc. remove_from_cache acc fp) old_fingerprints s
      in if old_fingerprints \<noteq> [] then save_fingerprints io_ok s' else s')"

text \<open>
  \<^verbatim>\<open>__init__\<close> with \<^verbatim>\<open>_load_fingerprints\<close>: every entry of the file is put into the
  caches of a fresh object. A missing file is the empty list.
\<close>

definition load_fingerprints :: "ContentFingerprint list \<Rightarrow> ContentDeduplicator \<Rightarrow> ContentDeduplicator" where
  "load_fingerprints items s = fold (\<lambda>fp acc. add_to_cache acc fp) items s"

definition init_deduplicator :: "real \<Rightarrow> ContentFingerprint list \<Rightarrow> ContentDeduplicator" where
  "init_deduplicator thr file =
     load_fingerprints file ((empty_deduplicator thr)\<lparr>fingerprint_file := file\<rparr>)"

text \<open>
  The stores the engine itself can be in: created without a file, changed by
  \<^verbatim>\<open>add_content\<close> and \<^verbatim>\<open>cleanup_old_fingerprints\<close>, or created again from the file that
  such a store has written.
\<close>

inductive engine_store :: "libs \<Rightarrow> ContentDeduplicator \<Rightarrow> bool" for L :: libs where
  fresh: "engine_store L (empty_deduplicator thr)"
| added: "engine_store L s \<Longrightarrow> engine_store L (snd (add_content L now io_ok s t c u))"
| cleaned: "engine_store L s \<Longrightarrow> engine_store L (cleanup_old_fingerprints now io_ok s days)"
| restarted: "engine_store L s \<Longrightarrow> engine_store L (init_deduplicator thr (fingerprint_file s))"

text \<open>
  The invariant of these stores that the membership query depends on: every content hash
  held anywhere in the store is the digest of a text in which the URL pattern has no match.
\<close>

definition url_free_hash :: "libs \<Rightarrow> string \<Rightarrow> bool" where
  "url_free_hash L h = (\<exists>x. h = sha256 L x \<and> \<not> contains_url x)"

definition clean_store :: "libs \<Rightarrow> ContentDeduplicator \<Rightarrow> bool" where
  "clean_store L s =
     ((\<forall>h\<in>content_cache s. url_free_hash L h)
      \<and> (\<forall>fp\<in>set (values_of (fingerprints s)). url_free_hash L (content_hash fp))
      \<and> (\<forall>fp\<in>set (fingerprint_file s). url_free_hash L (content_hash fp)))"



section \<open>The article fetcher (\<^verbatim>\<open>article_fetcher.py\<close>)\<close>

text \<open>
  Exceptions are values. A function that can raise an \<^verbatim>\<open>Exception\<close> returns a sum whose
  left side is the exception, given by its message, or by the name of its class when the
  interpreter or the standard library raises it. The objects that \<^verbatim>\<open>gather\<close> puts
  into its result list are of type \<open>exn\<close>: \<^verbatim>\<open>asyncio.CancelledError\<close> derives from
  \<^verbatim>\<open>BaseException\<close> and is not an instance of \<^verbatim>\<open>Exception\<close>. Cancellation of the
  caller of a function is not modelled.
\<close>

type_synonym exception = string

datatype exn = Exception exception | CancelledError

datatype ClientSession = ClientSession (closed: bool)

datatype TCPConnector = TCPConnector

record ScrapingConfig =
  max_retries :: int
  timeout :: int
  max_sources_per_topic :: int

text \<open>What the fetcher does to the outside, in order. Logging is left out.\<close>

datatype effect =
    CloseSession
  | Sleep real
  | CancelTasks "nat set"
  | AwaitTasks "nat set"

record AsyncSessionManager =
  manager_config :: ScrapingConfig
  session :: "ClientSession option"
  connector :: "TCPConnector option"
  semaphore :: "int option"
  manager_is_closed :: bool

definition new_session_manager :: "ScrapingConfig \<Rightarrow> AsyncSessionManager" where
  "new_session_manager cfg =
     \<lparr>manager_config = cfg, session = None, connector = None, semaphore = None,
      manager_is_closed = True\<rparr>"

text \<open>
  \<^verbatim>\<open>get_session\<close> with \<^verbatim>\<open>_create_session\<close>. \<open>create_error\<close> is the exception that
  constructing the connector or the session raises, if any; it reaches the caller.
\<close>

definition get_session ::
  "exception option \<Rightarrow> AsyncSessionManager \<Rightarrow> exception + AsyncSessionManager" where
  "get_session create_error m =
     (if session m = None \<or> (case session m of Some ss \<Rightarrow> closed ss | None \<Rightarrow> False)
         \<or> manager_is_closed m
      then (case create_error of
              Some e \<Rightarrow> Inl e
            | None \<Rightarrow> Inr (m\<lparr>connector := Some TCPConnector,
                             session := Some (ClientSession False),
                             manager_is_closed := False\<rparr>))
      else Inr m)"

text \<open>
  \<^verbatim>\<open>get_semaphore\<close>. The field \<open>semaphore\<close> holds the value of the semaphore, the number of
  permits that are free. \<^verbatim>\<open>asyncio.Semaphore(value)\<close> raises \<^verbatim>\<open>ValueError\<close> for a negative
  value; the configuration is read from the environment and not validated.
\<close>

definition get_semaphore :: "AsyncSessionManager \<Rightarrow> exception + AsyncSessionManager" where
  "get_semaphore m =
     (if semaphore m = None
      then (if max_sources_per_topic (manager_config m) < 0 then Inl ''ValueError''
            else Inr (m\<lparr>semaphore := Some (max_sources_per_topic (manager_config m))\<rparr>))
      else Inr m)"

text \<open>
  \<^verbatim>\<open>AsyncSessionManager.close\<close>. \<open>close_raises\<close> says whether \<^verbatim>\<open>session.close()\<close>
  raises; the handler logs it and the \<^verbatim>\<open>finally\<close> block runs either way.
\<close>

definition close :: "bool \<Rightarrow> AsyncSessionManager \<Rightarrow> AsyncSessionManager \<times> effect list" where
  "close close_raises m =
     (if manager_is_closed m then (m, [])
      else
        let effects =
              (case session m of
                 None \<Rightarrow> []
               | Some ss \<Rightarrow>
                   if \<not> closed ss
                   then (if close_raises then [CloseSession] else [CloseSession, Sleep (1 / 10)])
                   else [])
        in (m\<lparr>manager_is_closed := True, session := None, connector := None\<rparr>, effects))"

definition is_session_active :: "AsyncSessionManager \<Rightarrow> bool" where
  "is_session_active m =
     (\<not> manager_is_closed m \<and> session m \<noteq> None
      \<and> (case session m of Some ss \<Rightarrow> \<not> closed ss | None \<Rightarrow> False))"

text \<open>
  The fetcher. Tasks are numbered in the order of their creation (\<open>tasks_created\<close>), which
  stands for the identity of the task objects in \<^verbatim>\<open>_active_tasks\<close>.
\<close>

record AsyncArticleFetcher =
  config :: ScrapingConfig
  session_manager :: AsyncSessionManager
  active_tasks :: "nat set"
  fetcher_is_closed :: bool
  tasks_created :: nat

definition new_fetcher :: "ScrapingConfig \<Rightarrow> AsyncArticleFetcher" where
  "new_fetcher cfg =
     \<lparr>config = cfg, session_manager = new_session_manager cfg, active_tasks = {},
      fetcher_is_closed = False, tasks_created = 0\<rparr>"

text \<open>
  The outside of a single fetch, as the fetcher sees it: what the redirect-resolving request
  for a URL gives (an exception or the final URL) and what the \<open>k\<close>-th request for a URL
  gives. A response carries its status and, for status 200, the title and text that the
  \<^verbatim>\<open>newspaper\<close> parser finds in the body. \<open>netloc\<close> is
  \<^verbatim>\<open>urllib.parse.urlparse(url).netloc\<close>, which raises \<^verbatim>\<open>ValueError\<close> on some URLs.
  \<open>permit_released\<close> says whether, while the call waits at a semaphore without a free
  permit, another task gives its permit back and the semaphore hands it to this call.
\<close>

datatype fetch_outcome = Raises exception | Response int string string

record web =
  session_error :: "exception option"
  redirect :: "string \<Rightarrow> exception + string"
  request :: "string \<Rightarrow> nat \<Rightarrow> fetch_outcome"
  netloc :: "string \<Rightarrow> exception + string"
  permit_released :: bool

definition is_substring :: "string \<Rightarrow> string \<Rightarrow> bool" where
  "is_substring p s = list_ex (\<lambda>i. take (length p) (drop i s) = p) [0..<Suc (length s)]"

definition resolve_google_news_url :: "web \<Rightarrow> string \<Rightarrow> string" where
  "resolve_google_news_url W u =
     (if \<not> is_substring ''news.google.com/rss/articles/'' u then u
      else case redirect W u of
             Inr final \<Rightarrow> if \<not> is_substring ''news.google.com'' final then final else u
           | Inl e \<Rightarrow> u)"

definition extract_with_aiohttp :: "fetch_outcome \<Rightarrow> exception + string \<times> string" where
  "extract_with_aiohttp out =
     (case out of
        Raises e \<Rightarrow> Inl e
      | Response status article_title article_text \<Rightarrow>
          if status \<noteq> 200 then Inr (''Error: Non-200 response'', [])
          else if article_title \<noteq> [] \<and> article_text \<noteq> [] \<and> length article_text > 100
          then Inr (article_title, article_text)
          else Inr (''Error: Failed to extract'', []))"

definition generate_fallback_content :: "web \<Rightarrow> string \<Rightarrow> exception + string" where
  "generate_fallback_content W u =
     (case netloc W u of
        Inl e \<Rightarrow> Inl e
      | Inr domain \<Rightarrow>
          Inr (''Content from '' @ domain @ '' could not be extracted. Source: '' @ u))"

text \<open>
  The retry loop of \<^verbatim>\<open>extract_single_article\<close>: \<open>attempt\<close> is the loop variable and
  \<open>left\<close> the number of iterations still to run. The result is the pair returned from
  inside the loop, if any, and the sleeps made.
\<close>

fun retry_loop ::
  "int \<Rightarrow> (nat \<Rightarrow> fetch_outcome) \<Rightarrow> nat \<Rightarrow> nat \<Rightarrow> (string \<times> string) option \<times> effect list" where
  "retry_loop mr req attempt 0 = (None, [])"
| "retry_loop mr req attempt (Suc left) =
     (let backoff = (if int attempt < mr - 1 then [Sleep (2 ^ attempt)] else []);
          again = (let (r, effs) = retry_loop mr req (Suc attempt) left in (r, backoff @ effs))
      in case extract_with_aiohttp (req attempt) of
           Inr (t, c) \<Rightarrow> if c \<noteq> [] \<and> length c > 100 then (Some (t, c), []) else again
         | Inl e \<Rightarrow> again)"

text \<open>
  Entering \<^verbatim>\<open>async with semaphore\<close>: with a free permit the call goes on. Without one it
  waits until a task that holds a permit gives it back. The tasks that hold permits are
  those inside the block, so a semaphore that was made with the value \<open>0\<close> never has a
  permit to hand over; the value it was made with is \<^verbatim>\<open>max_sources_per_topic\<close>.
\<close>

definition acquire :: "web \<Rightarrow> AsyncSessionManager \<Rightarrow> bool" where
  "acquire W m =
     (case semaphore m of
        None \<Rightarrow> False
      | Some v \<Rightarrow> 0 < v \<or> (permit_released W \<and> 0 < max_sources_per_topic (manager_config m)))"

text \<open>
  \<^verbatim>\<open>extract_single_article\<close>. The result is \<open>None\<close> when the call never returns (it waits
  for a permit for ever), \<open>Some (Inl e)\<close> when it raises \<open>e\<close> and \<open>Some (Inr (title, content))\<close>
  when it returns a pair. The call takes one permit and gives it back on every way out of
  the block, so it leaves the value of the semaphore as it found it.
\<close>

definition extract_single_article ::
  "web \<Rightarrow> AsyncArticleFetcher \<Rightarrow> string
     \<Rightarrow> (exception + string \<times> string) option \<times> AsyncArticleFetcher \<times> effect list" where
  "extract_single_article W f u =
     (if fetcher_is_closed f then (Some (Inr (''Error: Fetcher closed'', [])), f, [])
      else
        case get_semaphore (session_manager f) of
          Inl e \<Rightarrow> (Some (Inl e), f, [])
        | Inr m1 \<Rightarrow>
            if \<not> acquire W m1 then (None, f\<lparr>session_manager := m1\<rparr>, [])
            else
              case get_session (session_error W) m1 of
                Inl e \<Rightarrow> (Some (Inl e), f\<lparr>session_manager := m1\<rparr>, [])
              | Inr m2 \<Rightarrow>
                  let f2 = f\<lparr>session_manager := m2\<rparr>;
                      resolved_url = resolve_google_news_url W u;
                      (r, effs) = retry_loop (max_retries (config f)) (request W resolved_url) 0
                                    (nat (max_retries (config f)))
                  in case r of
                       Some tc \<Rightarrow> (Some (Inr tc), f2, effs)
                     | None \<Rightarrow>
                         (case generate_fallback_content W u of
                            Inl e \<Rightarrow> (Some (Inl e), f2, effs)
                          | Inr fallback \<Rightarrow>
                              (Some (Inr (''Error: Extraction failed'', fallback)), f2, effs)))"

text \<open>
  The call gets past the semaphore: the semaphore exists or can be made, and a permit is
  free or is handed over.
\<close>

definition gets_permit :: "web \<Rightarrow> AsyncArticleFetcher \<Rightarrow> bool" where
  "gets_permit W f =
     (case get_semaphore (session_manager f) of Inl e \<Rightarrow> False | Inr m \<Rightarrow> acquire W m)"

text \<open>
  A task of a batch, seen from \<^verbatim>\<open>extract_multiple_articles\<close>: it finishes at some time
  (seconds after the batch started) with a result or an exception, or it never does.
  A task cancelled from outside finishes with \<^verbatim>\<open>CancelledError\<close>.
\<close>

datatype task_outcome = Finished real "exn + string \<times> string" | Stuck

definition pending_at :: "real \<Rightarrow> task_outcome \<Rightarrow> bool" where
  "pending_at d out = (case out of Stuck \<Rightarrow> True | Finished t r \<Rightarrow> \<not> t < d)"

text \<open>The entry of a task in the list that \<^verbatim>\<open>gather\<close> returns once every task has finished.\<close>

definition result_of :: "task_outcome \<Rightarrow> exn + string \<times> string" where
  "result_of out = (case out of Stuck \<Rightarrow> Inl CancelledError | Finished t r \<Rightarrow> r)"

text \<open>
  \<^verbatim>\<open>_process_results\<close>. An entry that is not an \<^verbatim>\<open>Exception\<close> is indexed as a pair;
  on a \<^verbatim>\<open>CancelledError\<close> object that raises \<^verbatim>\<open>TypeError\<close>.
\<close>

fun process_results_from ::
  "nat \<Rightarrow> string list \<Rightarrow> (exn + string \<times> string) list
     \<Rightarrow> exception + (string \<times> string \<times> string) list" where
  "process_results_from i urls [] = Inr []"
| "process_results_from i urls (r # rs) =
     (if \<not> i < length urls then Inl ''IndexError''
      else case r of
             Inl (Exception e) \<Rightarrow>
               (case process_results_from (Suc i) urls rs of
                  Inl x \<Rightarrow> Inl x
                | Inr extracted \<Rightarrow> Inr ((urls ! i, ''Error: Task failed'', []) # extracted))
           | Inl CancelledError \<Rightarrow> Inl ''TypeError''
           | Inr (t, c) \<Rightarrow>
               (case process_results_from (Suc i) urls rs of
                  Inl x \<Rightarrow> Inl x
                | Inr extracted \<Rightarrow> Inr ((urls ! i, t, c) # extracted)))"

definition process_results ::
  "string list \<Rightarrow> (exn + string \<times> string) list \<Rightarrow> exception + (string \<times> string \<times> string) list" where
  "process_results urls results = process_results_from 0 urls results"

text \<open>
  \<^verbatim>\<open>extract_multiple_articles\<close>. \<open>outcome i\<close> is what the task of the \<open>i\<close>-th URL does.
  \<^verbatim>\<open>gather\<close> delivers the results in the order of the tasks; \<^verbatim>\<open>wait_for\<close> raises
  \<^verbatim>\<open>TimeoutError\<close> when some task has not finished before the 300 seconds are over.
\<close>

definition batch_timed_out :: "(nat \<Rightarrow> task_outcome) \<Rightarrow> nat \<Rightarrow> bool" where
  "batch_timed_out outcome n = list_ex (\<lambda>i. pending_at 300 (outcome i)) [0..<n]"

definition extract_multiple_articles ::
  "(nat \<Rightarrow> task_outcome) \<Rightarrow> AsyncArticleFetcher \<Rightarrow> string list
     \<Rightarrow> (exception + (string \<times> string \<times> string) list) \<times> AsyncArticleFetcher \<times> effect list" where
  "extract_multiple_articles outcome f urls =
     (if fetcher_is_closed f then (Inr [], f, [])
      else
        let n = length urls;
            base = tasks_created f;
            tasks = map (\<lambda>i. base + i) [0..<n];
            f1 = f\<lparr>active_tasks := active_tasks f \<union> set tasks, tasks_created := base + n\<rparr>;
            timed_out = batch_timed_out outcome n;
            results = (if timed_out then map (\<lambda>i. Inl (Exception ''Timeout'')) [0..<n]
                       else map (\<lambda>i. result_of (outcome i)) [0..<n]);
            effects = (if timed_out
                       then [CancelTasks (set (map (\<lambda>i. base + i)
                                (filter (\<lambda>i. pending_at 300 (outcome i)) [0..<n])))]
                       else []);
            f2 = f1\<lparr>active_tasks := active_tasks f1 - set tasks\<rparr>
        in (process_results urls results, f2, effects))"

text \<open>
  \<^verbatim>\<open>AsyncArticleFetcher.cleanup\<close>. \<open>task_done\<close> says which tasks have finished when the
  cleanup runs, \<open>close_raises\<close> whether closing the session raises.
\<close>

record cleanup_env =
  close_raises :: bool
  task_done :: "nat \<Rightarrow> bool"

definition cleanup :: "cleanup_env \<Rightarrow> AsyncArticleFetcher \<Rightarrow> AsyncArticleFetcher \<times> effect list" where
  "cleanup E f =
     (if fetcher_is_closed f then (f, [])
      else
        let f1 = f\<lparr>fetcher_is_closed := True\<rparr>;
            (f2, effects1) =
              (if active_tasks f1 \<noteq> {}
               then (f1\<lparr>active_tasks := {}\<rparr>,
                     [CancelTasks (Set.filter (\<lambda>t. \<not> task_done E t) (active_tasks f1)),
                      AwaitTasks (active_tasks f1)])
               else (f1, []));
            (m, effects2) = close (close_raises E) (session_manager f2)
        in (f2\<lparr>session_manager := m\<rparr>, effects1 @ effects2 @ [Sleep (2 / 10)]))"

text \<open>
  An attempt of the retry loop ends the loop: the request gives a pair whose content has
  more than 100 characters.
\<close>

definition attempt_succeeds :: "fetch_outcome \<Rightarrow> bool" where
  "attempt_succeeds out =
     (case extract_with_aiohttp out of Inl e \<Rightarrow> False | Inr (t, c) \<Rightarrow> c \<noteq> [] \<and> length c > 100)"

text \<open>The defaults of \<^verbatim>\<open>ScrapingConfig\<close> in \<^verbatim>\<open>config.py\<close>.\<close>

definition default_config :: ScrapingConfig where
  "default_config = \<lparr>max_retries = 3, timeout = 180, max_sources_per_topic = 5\<rparr>"

text \<open>
  A stand-in for \<^verbatim>\<open>urlparse(url).netloc\<close> in closed examples, right on URLs of the form
  \<^verbatim>\<open>http://host/path\<close> and \<^verbatim>\<open>https://host/path\<close>.
\<close>

definition example_netloc :: "string \<Rightarrow> exception + string" where
  "example_netloc u =
     (if take 7 u = ''http://'' then Inr (takeWhile (\<lambda>c. c \<notin> set ''/?#'') (drop 7 u))
      else if take 8 u = ''https://'' then Inr (takeWhile (\<lambda>c. c \<notin> set ''/?#'') (drop 8 u))
      else Inr [])"

definition example_web :: "(string \<Rightarrow> nat \<Rightarrow> fetch_outcome) \<Rightarrow> web" where
  "example_web req =
     \<lparr>session_error = None, redirect = (\<lambda>u. Inr u), request = req, netloc = example_netloc,
      permit_released = False\<rparr>"

section \<open>The scheduler (\<^verbatim>\<open>schedule.py\<close>)\<close>









record source_metadata =
  source_url :: string
  source_title :: string
  domain :: string
  extracted_at :: int












































section \<open>Accepting content twice\<close>





section \<open>Similar content\<close>


























section \<open>The membership query after a successful accept\<close>

lemma url_at_iff:
  "url_at s \<longleftrightarrow> (\<exists>c r. \<not> is_space c \<and> (s = ''http://'' @ c # r \<or> s = ''https://'' @ c # r))"
proof
  assume u: "url_at s"
  show "\<exists>c r. \<not> is_space c \<and> (s = ''http://'' @ c # r \<or> s = ''https://'' @ c # r)"
  proof (cases "take 7 s = ''http://''")
    case True
    with u obtain c r where d: "drop 7 s = c # r" and ns: "\<not> is_space c"
      by (auto simp: url_at_def split: list.splits)
    have "s = take 7 s @ drop 7 s" by simp
    with True d have "s = ''http://'' @ c # r" by metis
    with ns show ?thesis by blast
  next
    case False
    with u have t8: "take 8 s = ''https://''"
      by (auto simp: url_at_def split: if_splits)
    with u False obtain c r where d: "drop 8 s = c # r" and ns: "\<not> is_space c"
      by (auto simp: url_at_def split: list.splits)
    have "s = take 8 s @ drop 8 s" by simp
    with t8 d have "s = ''https://'' @ c # r" by metis
    with ns show ?thesis by blast
  qed
next
  assume "\<exists>c r. \<not> is_space c \<and> (s = ''http://'' @ c # r \<or> s = ''https://'' @ c # r)"
  then show "url_at s"
    by (auto simp: url_at_def)
qed

lemma url_at_not_space: "url_at (c # cs) \<Longrightarrow> \<not> is_space c"
  by (auto simp: url_at_iff is_space_def)

lemma url_at_append: "url_at p \<Longrightarrow> url_at (p @ q)"
  by (auto simp: url_at_iff)

lemma url_at_takeWhile: "url_at s \<Longrightarrow> url_at (takeWhile (\<lambda>c. \<not> is_space c) s)"
proof -
  assume "url_at s"
  then obtain c r where ns: "\<not> is_space c" and s: "s = ''http://'' @ c # r \<or> s = ''https://'' @ c # r"
    by (auto simp: url_at_iff)
  from s show ?thesis
  proof
    assume "s = ''http://'' @ c # r"
    then have "takeWhile (\<lambda>c. \<not> is_space c) s = ''http://'' @ c # takeWhile (\<lambda>c. \<not> is_space c) r"
      using ns by (simp add: is_space_def)
    then show ?thesis using ns by (auto simp: url_at_iff)
  next
    assume "s = ''https://'' @ c # r"
    then have "takeWhile (\<lambda>c. \<not> is_space c) s = ''https://'' @ c # takeWhile (\<lambda>c. \<not> is_space c) r"
      using ns by (simp add: is_space_def)
    then show ?thesis using ns by (auto simp: url_at_iff)
  qed
qed

lemma length_strip_urls_from: "length (strip_urls_from b s) \<le> length s"
  by (induction s arbitrary: b) (auto simp: le_SucI)

lemma strip_urls_from_in_match:
  "takeWhile (\<lambda>c. \<not> is_space c) (strip_urls_from True s) = []"
  by (induction s) auto

lemma strip_urls_from_prefix:
  "\<exists>q. takeWhile (\<lambda>c. \<not> is_space c) s = takeWhile (\<lambda>c. \<not> is_space c) (strip_urls_from False s) @ q"
proof (induction s)
  case Nil
  then show ?case by simp
next
  case (Cons c cs)
  show ?case
  proof (cases "url_at (c # cs)")
    case True
    then show ?thesis by (simp add: strip_urls_from_in_match)
  next
    case False
    with Cons show ?thesis by simp
  qed
qed

lemma url_at_strip_urls_from:
  assumes "url_at (c # strip_urls_from False cs)"
  shows "url_at (c # cs)"
proof -
  let ?ns = "\<lambda>c. \<not> is_space c"
  from assms have c: "?ns c" by (rule url_at_not_space)
  from assms have "url_at (takeWhile ?ns (c # strip_urls_from False cs))"
    by (rule url_at_takeWhile)
  with c have u: "url_at (c # takeWhile ?ns (strip_urls_from False cs))" by simp
  from strip_urls_from_prefix [of cs] obtain q where
    "takeWhile ?ns cs = takeWhile ?ns (strip_urls_from False cs) @ q"
    by blast
  then have "c # takeWhile ?ns cs = (c # takeWhile ?ns (strip_urls_from False cs)) @ q" by simp
  with url_at_append [OF u, of q] have "url_at (c # takeWhile ?ns cs)" by simp
  then have "url_at ((c # takeWhile ?ns cs) @ dropWhile ?ns cs)" by (rule url_at_append)
  then show ?thesis by simp
qed

lemma no_url_strip_urls_from: "\<not> contains_url (strip_urls_from b s)"
proof (induction s arbitrary: b)
  case Nil
  then show ?case by simp
next
  case (Cons c cs)
  show ?case
  proof (cases b)
    case True
    then show ?thesis using Cons url_at_not_space by auto
  next
    case False
    then show ?thesis using Cons url_at_strip_urls_from by auto
  qed
qed

lemma strip_urls_from_fixpoint: "strip_urls_from False s = s \<longleftrightarrow> \<not> contains_url s"
proof (induction s)
  case Nil
  then show ?case by simp
next
  case (Cons c cs)
  show ?case
  proof (cases "url_at (c # cs)")
    case True
    have "length (strip_urls_from True cs) \<le> length cs" by (rule length_strip_urls_from)
    then have "strip_urls_from True cs \<noteq> c # cs" by auto
    with True show ?thesis by simp
  next
    case False
    with Cons show ?thesis by simp
  qed
qed

lemma values_of_update:
  "set (values_of (AList.update k v al)) \<subseteq> insert v (set (values_of al))"
  by (induction al) (auto simp: values_of_def)

lemma values_of_delete:
  "set (values_of (AList.delete k al)) \<subseteq> set (values_of al)"
  by (induction al) (auto simp: values_of_def)

lemma clean_store_add_to_cache:
  "clean_store L s \<Longrightarrow> url_free_hash L (content_hash fp) \<Longrightarrow> clean_store L (add_to_cache s fp)"
  using values_of_update [of "content_hash fp" fp "fingerprints s"]
  by (auto simp: clean_store_def add_to_cache_def)

lemma clean_store_remove_from_cache:
  "clean_store L s \<Longrightarrow> clean_store L (remove_from_cache s fp)"
  using values_of_delete [of "content_hash fp" "fingerprints s"]
  by (auto simp: clean_store_def remove_from_cache_def)

lemma clean_store_save_fingerprints:
  "clean_store L s \<Longrightarrow> clean_store L (save_fingerprints io s)"
  by (auto simp: clean_store_def save_fingerprints_def)

lemma clean_store_fold_remove:
  "clean_store L s \<Longrightarrow> clean_store L (fold (\<lambda>fp acc. remove_from_cache acc fp) fps s)"
  by (induction fps arbitrary: s) (auto simp: clean_store_remove_from_cache)

lemma clean_store_fold_add:
  "clean_store L s \<Longrightarrow> \<forall>fp\<in>set fps. url_free_hash L (content_hash fp) \<Longrightarrow>
   clean_store L (fold (\<lambda>fp acc. add_to_cache acc fp) fps s)"
  by (induction fps arbitrary: s) (auto simp: clean_store_add_to_cache)

lemma url_free_hash_fingerprint:
  "url_free_hash L (content_hash (create_content_fingerprint L now t c u))"
  unfolding url_free_hash_def create_content_fingerprint_def strip_urls_def Let_def
  using no_url_strip_urls_from [of False "strip_markdown c"] by auto

lemma clean_store_add_content:
  "clean_store L s \<Longrightarrow> clean_store L (snd (add_content L now io s t c u))"
  by (auto simp: add_content_def Let_def clean_store_save_fingerprints clean_store_add_to_cache
      url_free_hash_fingerprint)

lemma clean_store_cleanup:
  "clean_store L s \<Longrightarrow> clean_store L (cleanup_old_fingerprints now io s days)"
  by (auto simp: cleanup_old_fingerprints_def Let_def clean_store_save_fingerprints
      clean_store_fold_remove)

lemma clean_store_init:
  assumes "clean_store L s"
  shows "clean_store L (init_deduplicator thr (fingerprint_file s))"
proof -
  have "clean_store L ((empty_deduplicator thr)\<lparr>fingerprint_file := fingerprint_file s\<rparr>)"
    using assms by (auto simp: clean_store_def empty_deduplicator_def values_of_def)
  moreover have "\<forall>fp\<in>set (fingerprint_file s). url_free_hash L (content_hash fp)"
    using assms by (auto simp: clean_store_def)
  ultimately show ?thesis
    unfolding init_deduplicator_def load_fingerprints_def by (rule clean_store_fold_add)
qed

lemma engine_store_clean: "engine_store L s \<Longrightarrow> clean_store L s"
proof (induction rule: engine_store.induct)
  case (fresh thr)
  then show ?case by (simp add: clean_store_def empty_deduplicator_def values_of_def)
next
  case (added s now io_ok t c u)
  then show ?case by (simp add: clean_store_add_content)
next
  case (cleaned s now io_ok days)
  then show ?case by (simp add: clean_store_cleanup)
next
  case (restarted s thr)
  then show ?case by (simp add: clean_store_init)
qed

lemma add_content_True:
  "add_content L now io s t c u = (True, s') \<Longrightarrow>
   s' = save_fingerprints io (add_to_cache s (create_content_fingerprint L now t c u))"
  by (auto simp: add_content_def Let_def split: if_splits)

lemma content_hash_fingerprint:
  "content_hash (create_content_fingerprint L now t c u) = sha256 L (strip_urls (strip_markdown c))"
  by (simp add: create_content_fingerprint_def Let_def)

lemma content_cache_added:
  "content_cache (save_fingerprints io (add_to_cache s fp)) = insert (content_hash fp) (content_cache s)"
  by (simp add: save_fingerprints_def add_to_cache_def)

text \<open>
  C10, corrected. Let the digest be free of collisions and the store be one the engine has
  built. Right after \<^verbatim>\<open>add_content(title, content, url)\<close> has returned true,
  \<^verbatim>\<open>is_duplicate_content(content)\<close> is false if the content still has a match of the URL
  pattern once its markdown characters are removed, and true otherwise.
\<close>

theorem is_duplicate_content_after_add_content:
  assumes "inj (sha256 L)" and "engine_store L s"
    and "add_content L now io s t c u = (True, s')"
  shows "is_duplicate_content L s' c \<longleftrightarrow> \<not> contains_url (strip_markdown c)"
proof -
  let ?m = "strip_markdown c"
  have cache: "content_cache s' = insert (sha256 L (strip_urls ?m)) (content_cache s)"
    unfolding add_content_True [OF assms(3)] content_cache_added content_hash_fingerprint ..
  have dup: "is_duplicate_content L s' c \<longleftrightarrow>
               sha256 L ?m = sha256 L (strip_urls ?m) \<or> sha256 L ?m \<in> content_cache s"
    unfolding is_duplicate_content_def cache by (rule insert_iff)
  have same: "sha256 L ?m = sha256 L (strip_urls ?m) \<longleftrightarrow> \<not> contains_url ?m"
  proof -
    have "sha256 L ?m = sha256 L (strip_urls ?m) \<longleftrightarrow> ?m = strip_urls ?m"
      using assms(1) by (rule inj_eq)
    also have "\<dots> \<longleftrightarrow> strip_urls_from False ?m = ?m"
      unfolding strip_urls_def by (rule eq_commute)
    also have "\<dots> \<longleftrightarrow> \<not> contains_url ?m"
      by (rule strip_urls_from_fixpoint)
    finally show ?thesis .
  qed
  have old: "\<not> contains_url ?m" if "sha256 L ?m \<in> content_cache s"
  proof -
    from engine_store_clean [OF assms(2)] have "\<forall>h\<in>content_cache s. url_free_hash L h"
      unfolding clean_store_def by (rule conjunct1)
    then have "url_free_hash L (sha256 L ?m)" using that by (rule bspec)
    then obtain x where x: "sha256 L ?m = sha256 L x" and free: "\<not> contains_url x"
      unfolding url_free_hash_def by blast
    from assms(1) x have "?m = x" by (rule injD)
    with free show ?thesis by simp
  qed
  from dup same old show ?thesis by blast
qed

text \<open>
  A content with a URL, added to a fresh store.
\<close>

theorem is_duplicate_content_after_add_content_witness:
  "inj (sha256 example_libs)
   \<and> engine_store example_libs (empty_deduplicator default_threshold)
   \<and> fst (add_content example_libs 0 True (empty_deduplicator default_threshold)
            ''Title'' ''read https://x.example/a today'' [])
   \<and> contains_url (strip_markdown ''read https://x.example/a today'')
   \<and> \<not> is_duplicate_content example_libs
        (snd (add_content example_libs 0 True (empty_deduplicator default_threshold)
               ''Title'' ''read https://x.example/a today'' []))
        ''read https://x.example/a today''"
proof -
  let ?s = "empty_deduplicator default_threshold"
  let ?c = "''read https://x.example/a today''"
  let ?r = "add_content example_libs 0 True ?s ''Title'' ?c []"
  have h1: "inj (sha256 example_libs)"
    by (auto simp: example_libs_def inj_def)
  have h2: "engine_store example_libs ?s" by (rule engine_store.fresh)
  have ok: "fst ?r"
    by (simp add: add_content_def create_content_fingerprint_def example_libs_def
        empty_deduplicator_def find_similar_content_def values_of_def Let_def)
  then have h3: "?r = (True, snd ?r)" by (simp add: prod_eq_iff)
  have u: "contains_url (strip_markdown ?c)"
    by (simp add: strip_markdown_def url_at_def is_space_def)
  from is_duplicate_content_after_add_content [OF h1 h2 h3] u
  have nd: "\<not> is_duplicate_content example_libs (snd ?r) ?c" by (simp only: simp_thms)
  show ?thesis by (intro conjI h1 h2 ok u nd)
qed

text \<open>
  C10 as stated fails. The content \<^verbatim>\<open>http://*\<close> has a match of the URL pattern, which
  disappears when the markdown character is removed: both functions hash \<^verbatim>\<open>http://\<close> and
  the membership query answers true.
\<close>

theorem is_duplicate_content_url_counterexample:
  "contains_url ''http://*''
   \<and> fst (add_content example_libs 0 True (empty_deduplicator default_threshold) ''Title'' ''http://*'' [])
   \<and> is_duplicate_content example_libs
       (snd (add_content example_libs 0 True (empty_deduplicator default_threshold) ''Title'' ''http://*'' []))
       ''http://*''"
  by (simp add: add_content_def create_content_fingerprint_def example_libs_def
      empty_deduplicator_def find_similar_content_def values_of_def Let_def
      is_duplicate_content_def save_fingerprints_def add_to_cache_def strip_markdown_def
      strip_urls_def url_at_def is_space_def)

section \<open>Teardown twice\<close>

text \<open>
  C5. After a completed \<^verbatim>\<open>AsyncSessionManager.close\<close> a second call returns the manager as
  it is and does nothing to the outside, and likewise for \<^verbatim>\<open>AsyncArticleFetcher.cleanup\<close>,
  whatever the environment of either call (whether closing the session raises, which tasks
  have finished). Neither function has a branch that raises.
\<close>

theorem close_and_cleanup_idempotent:
  "close r2 (fst (close r1 m)) = (fst (close r1 m), [])
   \<and> cleanup E2 (fst (cleanup E1 f)) = (fst (cleanup E1 f), [])"
proof
  show "close r2 (fst (close r1 m)) = (fst (close r1 m), [])"
    by (simp add: close_def Let_def)
next
  have "fetcher_is_closed (fst (cleanup E1 f))"
    by (simp add: cleanup_def Let_def split: prod.splits)
  then show "cleanup E2 (fst (cleanup E1 f)) = (fst (cleanup E1 f), [])"
    by (simp add: cleanup_def)
qed

section \<open>Batches\<close>

lemma process_results_from_ok:
  assumes "\<forall>r\<in>set rs. r \<noteq> Inl CancelledError" and "i + length rs \<le> length urls"
  shows "\<exists>out. process_results_from i urls rs = Inr out \<and> length out = length rs
           \<and> (\<forall>k<length rs. out ! k =
                 (urls ! (i + k), case rs ! k of Inl x \<Rightarrow> (''Error: Task failed'', [])
                                    | Inr tc \<Rightarrow> tc))"
  using assms
proof (induction rs arbitrary: i)
  case Nil
  then show ?case by simp
next
  case (Cons r rs)
  from Cons.prems have i: "i < length urls" and rest: "Suc i + length rs \<le> length urls"
    and nc: "\<forall>r\<in>set rs. r \<noteq> Inl CancelledError" and r: "r \<noteq> Inl CancelledError"
    by auto
  from Cons.IH [OF nc rest] obtain out where
    out: "process_results_from (Suc i) urls rs = Inr out" "length out = length rs"
    and nth: "\<forall>k<length rs. out ! k =
                 (urls ! (Suc i + k), case rs ! k of Inl x \<Rightarrow> (''Error: Task failed'', [])
                                    | Inr tc \<Rightarrow> tc)"
    by blast
  let ?e = "(urls ! i, case r of Inl x \<Rightarrow> (''Error: Task failed'', []) | Inr tc \<Rightarrow> tc)"
  have eq: "process_results_from i urls (r # rs) = Inr (?e # out)"
    using i r out(1) by (cases r) (auto split: exn.splits)
  have "\<forall>k<length (r # rs). (?e # out) ! k =
          (urls ! (i + k), case (r # rs) ! k of Inl x \<Rightarrow> (''Error: Task failed'', [])
                                    | Inr tc \<Rightarrow> tc)"
  proof (intro allI impI)
    fix k assume "k < length (r # rs)"
    then show "(?e # out) ! k =
          (urls ! (i + k), case (r # rs) ! k of Inl x \<Rightarrow> (''Error: Task failed'', [])
                                    | Inr tc \<Rightarrow> tc)"
      using nth by (cases k) auto
  qed
  with eq out(2) show ?case by simp
qed

lemma process_results_from_cancelled:
  "Inl CancelledError \<in> set rs \<Longrightarrow> i + length rs \<le> length urls \<Longrightarrow>
   process_results_from i urls rs = Inl ''TypeError''"
proof (induction rs arbitrary: i)
  case Nil
  then show ?case by simp
next
  case (Cons r rs)
  from Cons.prems(2) have i: "i < length urls" and rest: "Suc i + length rs \<le> length urls"
    by simp_all
  show ?case
  proof (cases "r = Inl CancelledError")
    case True
    with i show ?thesis by simp
  next
    case False
    with Cons.prems(1) have "Inl CancelledError \<in> set rs" by simp
    from Cons.IH [OF this rest] have "process_results_from (Suc i) urls rs = Inl ''TypeError''" .
    with i show ?thesis
      by (auto split: sum.splits exn.splits)
  qed
qed

lemma extract_multiple_articles_open:
  assumes "\<not> fetcher_is_closed f"
    and "batch_timed_out outcome (length urls)
         \<or> (\<forall>i<length urls. result_of (outcome i) \<noteq> Inl CancelledError)"
  shows "\<exists>rs. fst (extract_multiple_articles outcome f urls) = Inr rs
           \<and> length rs = length urls
           \<and> (\<forall>i<length urls. rs ! i =
                 (urls ! i,
                  case (if batch_timed_out outcome (length urls) then Inl (Exception ''Timeout'')
                        else result_of (outcome i)) of
                    Inl x \<Rightarrow> (''Error: Task failed'', [])
                  | Inr tc \<Rightarrow> tc))"
proof -
  let ?n = "length urls"
  let ?results = "if batch_timed_out outcome ?n then map (\<lambda>i. Inl (Exception ''Timeout'')) [0..<?n]
                  else map (\<lambda>i. result_of (outcome i)) [0..<?n]"
  have fst_eq: "fst (extract_multiple_articles outcome f urls) = process_results_from 0 urls ?results"
    using assms(1) by (simp add: extract_multiple_articles_def process_results_def Let_def)
  have nc: "\<forall>r\<in>set ?results. r \<noteq> Inl CancelledError"
    using assms(2) by auto
  have len: "0 + length ?results \<le> length urls" by simp
  from process_results_from_ok [OF nc len] obtain out where
    out: "process_results_from 0 urls ?results = Inr out" "length out = length ?results"
    and nth: "\<forall>k<length ?results. out ! k =
          (urls ! (0 + k), case ?results ! k of Inl x \<Rightarrow> (''Error: Task failed'', []) | Inr tc \<Rightarrow> tc)"
    by blast
  have "length out = ?n" using out(2) by simp
  moreover have "\<forall>i<?n. out ! i =
                 (urls ! i,
                  case (if batch_timed_out outcome ?n then Inl (Exception ''Timeout'')
                        else result_of (outcome i)) of
                    Inl x \<Rightarrow> (''Error: Task failed'', [])
                  | Inr tc \<Rightarrow> tc)"
  proof (intro allI impI)
    fix i assume i: "i < ?n"
    then have "i < length ?results" by simp
    with nth have "out ! i = (urls ! (0 + i), case ?results ! i of Inl x \<Rightarrow> (''Error: Task failed'', []) | Inr tc \<Rightarrow> tc)"
      by blast
    then show "out ! i =
                 (urls ! i,
                  case (if batch_timed_out outcome ?n then Inl (Exception ''Timeout'')
                        else result_of (outcome i)) of
                    Inl x \<Rightarrow> (''Error: Task failed'', [])
                  | Inr tc \<Rightarrow> tc)"
      using i by (simp split: if_splits)
  qed
  ultimately show ?thesis using fst_eq out(1) by auto
qed

text \<open>
  C1, corrected. A closed fetcher answers every batch with the empty list and does nothing
  else. On a fetcher that has not been closed, when the batch times out (which discards
  every task result) or no task of the batch ends with \<^verbatim>\<open>CancelledError\<close>, the batch
  returns a list with exactly one entry per URL, and the \<open>i\<close>-th entry carries the \<open>i\<close>-th URL
  with the outcome of the \<open>i\<close>-th task, whatever the finishing times of the tasks and whether
  tasks raise. When the batch does not time out and a task ends with \<^verbatim>\<open>CancelledError\<close>,
  the call raises \<^verbatim>\<open>TypeError\<close>.
\<close>

theorem extract_multiple_articles_order:
  "(fetcher_is_closed f \<longrightarrow> extract_multiple_articles outcome f urls = (Inr [], f, []))
   \<and> (\<not> fetcher_is_closed f
        \<and> (batch_timed_out outcome (length urls)
             \<or> (\<forall>i<length urls. result_of (outcome i) \<noteq> Inl CancelledError))
      \<longrightarrow> (\<exists>rs. fst (extract_multiple_articles outcome f urls) = Inr rs
             \<and> length rs = length urls
             \<and> (\<forall>i<length urls. rs ! i =
                   (urls ! i,
                    case (if batch_timed_out outcome (length urls) then Inl (Exception ''Timeout'')
                          else result_of (outcome i)) of
                      Inl x \<Rightarrow> (''Error: Task failed'', [])
                    | Inr tc \<Rightarrow> tc))))
   \<and> (\<not> fetcher_is_closed f \<and> \<not> batch_timed_out outcome (length urls)
        \<and> (\<exists>i<length urls. result_of (outcome i) = Inl CancelledError)
      \<longrightarrow> fst (extract_multiple_articles outcome f urls) = Inl ''TypeError'')"
proof (intro conjI impI)
  show "extract_multiple_articles outcome f urls = (Inr [], f, [])" if "fetcher_is_closed f"
    using that by (simp add: extract_multiple_articles_def)
  show "\<exists>rs. fst (extract_multiple_articles outcome f urls) = Inr rs
             \<and> length rs = length urls
             \<and> (\<forall>i<length urls. rs ! i =
                   (urls ! i,
                    case (if batch_timed_out outcome (length urls) then Inl (Exception ''Timeout'')
                          else result_of (outcome i)) of
                      Inl x \<Rightarrow> (''Error: Task failed'', [])
                    | Inr tc \<Rightarrow> tc))"
    if "\<not> fetcher_is_closed f
        \<and> (batch_timed_out outcome (length urls)
             \<or> (\<forall>i<length urls. result_of (outcome i) \<noteq> Inl CancelledError))"
    using that extract_multiple_articles_open [of f outcome urls] by blast
  show "fst (extract_multiple_articles outcome f urls) = Inl ''TypeError''"
    if h: "\<not> fetcher_is_closed f \<and> \<not> batch_timed_out outcome (length urls)
        \<and> (\<exists>i<length urls. result_of (outcome i) = Inl CancelledError)"
  proof -
    let ?results = "map (\<lambda>i. result_of (outcome i)) [0..<length urls]"
    from h have "fst (extract_multiple_articles outcome f urls) = process_results_from 0 urls ?results"
      by (simp add: extract_multiple_articles_def process_results_def Let_def)
    moreover from h have "Inl CancelledError \<in> set ?results"
      by (auto simp: image_iff) (metis atLeastLessThan_iff le0)
    moreover have "0 + length ?results \<le> length urls" by simp
    ultimately show ?thesis
      using process_results_from_cancelled [of ?results 0 urls] by simp
  qed
qed

text \<open>
  Two URLs, the second task finishing first and raising; a closed fetcher; and two URLs,
  the second task cancelled from outside.
\<close>

theorem extract_multiple_articles_order_witness:
  "\<not> fetcher_is_closed (new_fetcher default_config)
   \<and> (\<exists>rs. fst (extract_multiple_articles
                 (\<lambda>i. if i = 0 then Finished 5 (Inr (''A'', ''body''))
                      else Finished 2 (Inl (Exception ''boom'')))
                 (new_fetcher default_config) [''http://a.example/1'', ''http://b.example/2''])
             = Inr rs
          \<and> length rs = 2
          \<and> rs ! 0 = (''http://a.example/1'', ''A'', ''body'')
          \<and> rs ! 1 = (''http://b.example/2'', ''Error: Task failed'', []))
   \<and> fetcher_is_closed ((new_fetcher default_config)\<lparr>fetcher_is_closed := True\<rparr>)
   \<and> extract_multiple_articles (\<lambda>i. Finished 1 (Inr (''A'', ''body'')))
         ((new_fetcher default_config)\<lparr>fetcher_is_closed := True\<rparr>) [''http://a.example/1'']
       = (Inr [], (new_fetcher default_config)\<lparr>fetcher_is_closed := True\<rparr>, [])
   \<and> fst (extract_multiple_articles
              (\<lambda>i. if i = 0 then Finished 5 (Inr (''A'', ''body''))
                   else Finished 2 (Inl CancelledError))
              (new_fetcher default_config) [''http://a.example/1'', ''http://b.example/2''])
       = Inl ''TypeError''"
proof -
  let ?out = "\<lambda>i::nat. if i = 0 then Finished 5 (Inr (''A'', ''body''))
                      else Finished 2 (Inl (Exception ''boom''))"
  let ?can = "\<lambda>i::nat. if i = 0 then Finished 5 (Inr (''A'', ''body''))
                      else Finished 2 (Inl CancelledError)"
  let ?us = "[''http://a.example/1'', ''http://b.example/2'']"
  let ?g = "(new_fetcher default_config)\<lparr>fetcher_is_closed := True\<rparr>"
  have h1: "\<not> fetcher_is_closed (new_fetcher default_config)"
    by (simp add: new_fetcher_def)
  have nt: "\<not> batch_timed_out ?out (length ?us)"
    by (simp add: batch_timed_out_def pending_at_def)
  have h2: "batch_timed_out ?out (length ?us)
         \<or> (\<forall>i<length ?us. result_of (?out i) \<noteq> Inl CancelledError)"
    by (simp add: result_of_def)
  from extract_multiple_articles_order [of "new_fetcher default_config" ?out ?us] h1 h2
  obtain rs where
    rs: "fst (extract_multiple_articles ?out (new_fetcher default_config) ?us) = Inr rs"
      "length rs = length ?us"
    and nth: "\<forall>i<length ?us. rs ! i =
                 (?us ! i,
                  case (if batch_timed_out ?out (length ?us) then Inl (Exception ''Timeout'')
                        else result_of (?out i)) of
                    Inl x \<Rightarrow> (''Error: Task failed'', [])
                  | Inr tc \<Rightarrow> tc)"
    by blast
  from nth have "rs ! 0 = (''http://a.example/1'', ''A'', ''body'')"
    using nt by (simp add: result_of_def)
  moreover from nth have "rs ! 1 = (''http://b.example/2'', ''Error: Task failed'', [])"
    using nt by (simp add: result_of_def)
  ultimately have a: "\<exists>rs. fst (extract_multiple_articles ?out (new_fetcher default_config) ?us)
             = Inr rs
          \<and> length rs = 2
          \<and> rs ! 0 = (''http://a.example/1'', ''A'', ''body'')
          \<and> rs ! 1 = (''http://b.example/2'', ''Error: Task failed'', [])"
    using rs by auto
  have g: "fetcher_is_closed ?g" by simp
  from extract_multiple_articles_order [of ?g "\<lambda>i. Finished 1 (Inr (''A'', ''body''))"
      "[''http://a.example/1'']"] g
  have b: "extract_multiple_articles (\<lambda>i. Finished 1 (Inr (''A'', ''body''))) ?g
             [''http://a.example/1''] = (Inr [], ?g, [])"
    by blast
  have nt': "\<not> batch_timed_out ?can (length ?us)"
    by (simp add: batch_timed_out_def pending_at_def)
  have ex: "\<exists>i<length ?us. result_of (?can i) = Inl CancelledError"
    by (rule exI [of _ 1]) (simp add: result_of_def)
  from extract_multiple_articles_order [of "new_fetcher default_config" ?can ?us] h1 nt' ex
  have c: "fst (extract_multiple_articles ?can (new_fetcher default_config) ?us) = Inl ''TypeError''"
    by blast
  show ?thesis using h1 a g b c by blast
qed

text \<open>
  C1 as stated fails. A closed fetcher, as \<^verbatim>\<open>cleanup\<close> leaves it after a run, answers a
  batch of one URL with the empty list; and on an open fetcher a task that was cancelled
  from outside makes \<^verbatim>\<open>_process_results\<close> raise \<^verbatim>\<open>TypeError\<close>, so that no list is returned.
\<close>

theorem extract_multiple_articles_closed_counterexample:
  "fst (extract_multiple_articles (\<lambda>i. Finished 1 (Inr (''A'', ''body'')))
          (fst (cleanup \<lparr>close_raises = False, task_done = (\<lambda>t. True)\<rparr> (new_fetcher default_config)))
          [''http://a.example/1''])
     = Inr []
   \<and> fst (extract_multiple_articles (\<lambda>i. Finished 1 (Inl CancelledError))
            (new_fetcher default_config) [''http://a.example/1''])
     = Inl ''TypeError''"
proof
  show "fst (extract_multiple_articles (\<lambda>i. Finished 1 (Inr (''A'', ''body'')))
          (fst (cleanup \<lparr>close_raises = False, task_done = (\<lambda>t. True)\<rparr> (new_fetcher default_config)))
          [''http://a.example/1''])
     = Inr []"
    by (simp add: extract_multiple_articles_def cleanup_def new_fetcher_def Let_def close_def
        new_session_manager_def)
  show "fst (extract_multiple_articles (\<lambda>i. Finished 1 (Inl CancelledError))
            (new_fetcher default_config) [''http://a.example/1''])
     = Inl ''TypeError''"
    by (simp add: extract_multiple_articles_def new_fetcher_def Let_def batch_timed_out_def
        pending_at_def result_of_def process_results_def)
qed

lemma process_results_from_failed:
  "i + k \<le> length urls \<Longrightarrow>
   process_results_from i urls (replicate k (Inl (Exception e)))
     = Inr (map (\<lambda>u. (u, ''Error: Task failed'', [])) (take k (drop i urls)))"
proof (induction k arbitrary: i)
  case 0
  then show ?case by simp
next
  case (Suc k)
  then have i: "i < length urls" and rest: "Suc i + k \<le> length urls" by auto
  have "drop i urls = urls ! i # drop (Suc i) urls"
    using i by (simp add: Cons_nth_drop_Suc)
  then show ?case using Suc.IH [OF rest] i by simp
qed

text \<open>
  C2, corrected. When some task of the batch is still pending after 300 seconds, exactly the
  pending tasks are cancelled, the tasks of the batch leave the live-task set, and every URL
  of the batch, also those whose task had completed, is reported as
  \<^verbatim>\<open>(url, "Error: Task failed", "")\<close>.
\<close>

theorem extract_multiple_articles_timeout:
  assumes "\<not> fetcher_is_closed f" and "batch_timed_out outcome (length urls)"
  shows "extract_multiple_articles outcome f urls =
           (Inr (map (\<lambda>u. (u, ''Error: Task failed'', [])) urls),
            f\<lparr>active_tasks :=
                active_tasks f - {tasks_created f..<tasks_created f + length urls},
              tasks_created := tasks_created f + length urls\<rparr>,
            [CancelTasks ((\<lambda>i. tasks_created f + i) `
                            {i. i < length urls \<and> pending_at 300 (outcome i)})])"
proof -
  let ?n = "length urls"
  let ?b = "tasks_created f"
  let ?tasks = "map (\<lambda>i. ?b + i) [0..<?n]"
  have unfolded: "extract_multiple_articles outcome f urls =
      (process_results urls (map (\<lambda>i. Inl (Exception ''Timeout'')) [0..<?n]),
       f\<lparr>active_tasks := active_tasks f \<union> set ?tasks - set ?tasks, tasks_created := ?b + ?n\<rparr>,
       [CancelTasks (set (map (\<lambda>i. ?b + i) (filter (\<lambda>i. pending_at 300 (outcome i)) [0..<?n])))])"
    using assms by (simp add: extract_multiple_articles_def Let_def del: set_map map_map)
  have "map (\<lambda>i::nat. (Inl (Exception ''Timeout'') :: exn + string \<times> string)) [0..<?n]
          = replicate ?n (Inl (Exception ''Timeout''))"
    by (simp add: map_replicate_const)
  then have res: "process_results urls (map (\<lambda>i::nat. Inl (Exception ''Timeout'')) [0..<?n])
          = Inr (map (\<lambda>u. (u, ''Error: Task failed'', [])) urls)"
    using process_results_from_failed [of 0 ?n urls "''Timeout''"]
    by (simp add: process_results_def)
  have ids: "set ?tasks = {?b..<?b + ?n}"
    by (auto simp: image_iff)
  have s2: "set (filter (\<lambda>i. pending_at 300 (outcome i)) [0..<?n])
              = {i. i < ?n \<and> pending_at 300 (outcome i)}" by auto
  have pend: "set (map (\<lambda>i. ?b + i) (filter (\<lambda>i. pending_at 300 (outcome i)) [0..<?n]))
      = (\<lambda>i. ?b + i) ` {i. i < ?n \<and> pending_at 300 (outcome i)}"
    by (simp only: set_map s2)
  have act: "active_tasks f \<union> set ?tasks - set ?tasks = active_tasks f - {?b..<?b + ?n}"
    unfolding ids by blast
  show ?thesis
    unfolding unfolded res pend act ..
qed

text \<open>
  C2 as stated fails. Five URLs, the third task never completes, the other four complete
  after one second with a title and a body: all five entries are failures.
\<close>

theorem extract_multiple_articles_timeout_counterexample:
  "fst (extract_multiple_articles
          (\<lambda>i. if i = 2 then Stuck else Finished 1 (Inr (''Title'', ''Body'')))
          (new_fetcher default_config)
          [''http://h.example/0'', ''http://h.example/1'', ''http://h.example/2'',
           ''http://h.example/3'', ''http://h.example/4''])
   = Inr [(''http://h.example/0'', ''Error: Task failed'', []),
          (''http://h.example/1'', ''Error: Task failed'', []),
          (''http://h.example/2'', ''Error: Task failed'', []),
          (''http://h.example/3'', ''Error: Task failed'', []),
          (''http://h.example/4'', ''Error: Task failed'', [])]"
  by (simp add: extract_multiple_articles_def new_fetcher_def Let_def batch_timed_out_def
      pending_at_def process_results_def upt_rec)

text \<open>
  Three URLs, the second task finishing after 400 seconds.
\<close>

theorem extract_multiple_articles_timeout_witness:
  "\<not> fetcher_is_closed (new_fetcher default_config)
   \<and> batch_timed_out (\<lambda>i. if i = 1 then Finished 400 (Inr (''Late'', ''body''))
                           else Finished 2 (Inr (''Early'', ''body''))) 3
   \<and> extract_multiple_articles
        (\<lambda>i. if i = 1 then Finished 400 (Inr (''Late'', ''body''))
             else Finished 2 (Inr (''Early'', ''body'')))
        (new_fetcher default_config)
        [''http://h.example/0'', ''http://h.example/1'', ''http://h.example/2'']
      = (Inr [(''http://h.example/0'', ''Error: Task failed'', []),
              (''http://h.example/1'', ''Error: Task failed'', []),
              (''http://h.example/2'', ''Error: Task failed'', [])],
         (new_fetcher default_config)\<lparr>active_tasks := {}, tasks_created := 3\<rparr>,
         [CancelTasks {1}])"
proof -
  let ?out = "\<lambda>i::nat. if i = 1 then Finished 400 (Inr (''Late'', ''body''))
                           else Finished 2 (Inr (''Early'', ''body''))"
  let ?us = "[''http://h.example/0'', ''http://h.example/1'', ''http://h.example/2'']"
  have h1: "\<not> fetcher_is_closed (new_fetcher default_config)"
    by (simp add: new_fetcher_def)
  have h2: "batch_timed_out ?out (length ?us)"
    by (simp add: batch_timed_out_def pending_at_def upt_rec)
  have p: "{i. i < length ?us \<and> pending_at 300 (?out i)} = {1}"
    by (auto simp: pending_at_def split: if_splits)
  have a: "active_tasks (new_fetcher default_config) = {}" "tasks_created (new_fetcher default_config) = 0"
    by (simp_all add: new_fetcher_def)
  have h2n: "batch_timed_out ?out 3"
    by (simp add: batch_timed_out_def pending_at_def upt_rec)
  have "extract_multiple_articles ?out (new_fetcher default_config) ?us
      = (Inr [(''http://h.example/0'', ''Error: Task failed'', []),
              (''http://h.example/1'', ''Error: Task failed'', []),
              (''http://h.example/2'', ''Error: Task failed'', [])],
         (new_fetcher default_config)\<lparr>active_tasks := {}, tasks_created := 3\<rparr>,
         [CancelTasks {1}])"
    using extract_multiple_articles_timeout [OF h1 h2]
    unfolding p a by simp
  with h1 h2n show ?thesis by blast
qed

section \<open>Single fetches\<close>

lemma backoffs_all:
  "\<forall>j\<in>set xs. P j \<Longrightarrow> concat (map (\<lambda>j. if P j then [f j] else []) xs) = map f xs"
  by (induction xs) auto

lemma backoffs_upto:
  "concat (map (\<lambda>j. if j < m then [f j] else []) [0..<n]) = map f [0..<min m n]"
proof (induction n)
  case 0
  then show ?case by simp
next
  case (Suc n)
  show ?case
  proof (cases "n < m")
    case True
    then have "min m (Suc n) = Suc (min m n)" by simp
    with Suc True show ?thesis by simp
  next
    case False
    then have "min m (Suc n) = min m n" by simp
    with Suc False show ?thesis by simp
  qed
qed

lemma retry_loop_fail:
  "\<forall>j<left. \<not> attempt_succeeds (req (a + j)) \<Longrightarrow>
   retry_loop mr req a left =
     (None, concat (map (\<lambda>j. if int j < mr - 1 then [Sleep (2 ^ j)] else []) [a..<a + left]))"
proof (induction left arbitrary: a)
  case 0
  then show ?case by simp
next
  case (Suc left)
  from Suc.prems have here: "\<not> attempt_succeeds (req a)"
    by (metis add.right_neutral zero_less_Suc)
  from Suc.prems have "\<forall>j<left. \<not> attempt_succeeds (req (Suc a + j))"
    by (metis Suc_less_eq add_Suc_right add_Suc)
  from Suc.IH [OF this] have rec: "retry_loop mr req (Suc a) left =
     (None, concat (map (\<lambda>j. if int j < mr - 1 then [Sleep (2 ^ j)] else []) [Suc a..<Suc a + left]))" .
  have upt: "[a..<a + Suc left] = a # [Suc a..<Suc a + left]"
    by (simp add: upt_rec)
  show ?case
    using here rec unfolding upt
    by (auto simp: attempt_succeeds_def Let_def split: sum.splits prod.splits)
qed

lemma retry_loop_success:
  "k < left \<Longrightarrow> \<forall>j<k. \<not> attempt_succeeds (req (a + j)) \<Longrightarrow>
   extract_with_aiohttp (req (a + k)) = Inr (t, c) \<Longrightarrow> length c > 100 \<Longrightarrow>
   retry_loop mr req a left =
     (Some (t, c), concat (map (\<lambda>j. if int j < mr - 1 then [Sleep (2 ^ j)] else []) [a..<a + k]))"
proof (induction k arbitrary: a left)
  case 0
  then obtain l where "left = Suc l" by (cases left) auto
  with 0 show ?case by (auto simp: Let_def)
next
  case (Suc k)
  then obtain l where left: "left = Suc l" and kl: "k < l" by (cases left) auto
  from Suc.prems have here: "\<not> attempt_succeeds (req a)"
    by (metis add.right_neutral zero_less_Suc)
  from Suc.prems have before: "\<forall>j<k. \<not> attempt_succeeds (req (Suc a + j))"
    by (metis Suc_less_eq add_Suc_right add_Suc)
  from Suc.prems have at: "extract_with_aiohttp (req (Suc a + k)) = Inr (t, c)" by simp
  from Suc.IH [OF kl before at Suc.prems(4)] have rec: "retry_loop mr req (Suc a) l =
     (Some (t, c), concat (map (\<lambda>j. if int j < mr - 1 then [Sleep (2 ^ j)] else []) [Suc a..<Suc a + k]))" .
  have upt: "[a..<a + Suc k] = a # [Suc a..<Suc a + k]"
    by (simp add: upt_rec)
  show ?case
    using here rec unfolding upt left
    by (auto simp: attempt_succeeds_def Let_def split: sum.splits prod.splits)
qed

lemma retry_loop_Some:
  "retry_loop mr req a left = (Some (t, c), effs) \<Longrightarrow> length c > 100"
proof (induction left arbitrary: a effs)
  case 0
  then show ?case by simp
next
  case (Suc left)
  then show ?case
    by (auto simp: Let_def split: sum.splits prod.splits if_splits)
qed

lemma extract_single_article_open:
  assumes "\<not> fetcher_is_closed f" and "gets_permit W f" and "session_error W = None"
  shows "fst (extract_single_article W f u) =
           (case fst (retry_loop (max_retries (config f)) (request W (resolve_google_news_url W u)) 0
                        (nat (max_retries (config f)))) of
              Some tc \<Rightarrow> Some (Inr tc)
            | None \<Rightarrow> (case generate_fallback_content W u of
                          Inl e \<Rightarrow> Some (Inl e)
                        | Inr fallback \<Rightarrow> Some (Inr (''Error: Extraction failed'', fallback))))"
    and "snd (snd (extract_single_article W f u)) =
           snd (retry_loop (max_retries (config f)) (request W (resolve_google_news_url W u)) 0
                  (nat (max_retries (config f))))"
  using assms
  by (auto simp: extract_single_article_def gets_permit_def get_session_def Let_def
      split: sum.splits prod.splits option.splits)


text \<open>
  C8, corrected. The threshold of \<^verbatim>\<open>extract_single_article\<close> counts characters, not words.
  On an open fetcher, once the call has a permit of the semaphore and with a usable
  session: the first attempt whose content has more than 100 characters ends the call with
  that title and content, after the sleeps \<open>2^0, 2^1, \<dots>\<close> of the attempts before it; when
  no attempt within \<^verbatim>\<open>max_retries\<close> gives such content (it is shorter, or the request
  raises), the call ends with the failure pair after the sleeps of all attempts but the
  last; and a pair other than the failure pair is returned only with content of more than
  100 characters.
\<close>

theorem extract_single_article_threshold:
  assumes "\<not> fetcher_is_closed f" and "gets_permit W f" and "session_error W = None"
  shows "(k < nat (max_retries (config f))
          \<and> (\<forall>j<k. \<not> attempt_succeeds (request W (resolve_google_news_url W u) j))
          \<and> extract_with_aiohttp (request W (resolve_google_news_url W u) k) = Inr (t, c)
          \<and> length c > 100
          \<longrightarrow> fst (extract_single_article W f u) = Some (Inr (t, c))
              \<and> snd (snd (extract_single_article W f u)) = map (\<lambda>j. Sleep (2 ^ j)) [0..<k])
       \<and> ((\<forall>j<nat (max_retries (config f)).
              \<not> attempt_succeeds (request W (resolve_google_news_url W u) j))
          \<longrightarrow> fst (extract_single_article W f u) =
                (case generate_fallback_content W u of
                   Inl e \<Rightarrow> Some (Inl e)
                 | Inr fallback \<Rightarrow> Some (Inr (''Error: Extraction failed'', fallback)))
              \<and> snd (snd (extract_single_article W f u)) =
                  map (\<lambda>j. Sleep (2 ^ j)) [0..<nat (max_retries (config f)) - 1])
       \<and> (fst (extract_single_article W f u) = Some (Inr (t', c'))
          \<longrightarrow> length c' > 100 \<or> t' = ''Error: Extraction failed'')"
proof (intro conjI impI)
  let ?mr = "max_retries (config f)"
  let ?req = "request W (resolve_google_news_url W u)"
  note open_eq = extract_single_article_open [OF assms, of u]
  {
    assume h: "k < nat ?mr \<and> (\<forall>j<k. \<not> attempt_succeeds (?req j))
          \<and> extract_with_aiohttp (?req k) = Inr (t, c) \<and> length c > 100"
    then have "retry_loop ?mr ?req 0 (nat ?mr) =
        (Some (t, c), concat (map (\<lambda>j. if int j < ?mr - 1 then [Sleep (2 ^ j)] else []) [0..<0 + k]))"
      using retry_loop_success [of k "nat ?mr" ?req 0 t c ?mr] by simp
    moreover have "\<forall>j\<in>set [0..<0 + k]. int j < ?mr - 1"
      using h by auto
    ultimately have loop: "retry_loop ?mr ?req 0 (nat ?mr) = (Some (t, c), map (\<lambda>j. Sleep (2 ^ j)) [0..<k])"
      using backoffs_all [of "[0..<0 + k]" "\<lambda>j. int j < ?mr - 1" "\<lambda>j. Sleep (2 ^ j)"] by simp
    show "fst (extract_single_article W f u) = Some (Inr (t, c))"
      using open_eq(1) loop by simp
    show "snd (snd (extract_single_article W f u)) = map (\<lambda>j. Sleep (2 ^ j)) [0..<k]"
      using open_eq(2) loop by simp
  }
  {
    assume h: "\<forall>j<nat ?mr. \<not> attempt_succeeds (?req j)"
    then have "retry_loop ?mr ?req 0 (nat ?mr) =
        (None, concat (map (\<lambda>j. if int j < ?mr - 1 then [Sleep (2 ^ j)] else []) [0..<0 + nat ?mr]))"
      using retry_loop_fail [of "nat ?mr" ?req 0 ?mr] by simp
    moreover have "(\<lambda>j. if int j < ?mr - 1 then [Sleep (2 ^ j)] else [])
                 = (\<lambda>j. if j < nat ?mr - 1 then [Sleep (2 ^ j)] else [])"
      by (rule ext) auto
    ultimately have loop: "retry_loop ?mr ?req 0 (nat ?mr) =
        (None, map (\<lambda>j. Sleep (2 ^ j)) [0..<nat ?mr - 1])"
      using backoffs_upto [of "nat ?mr - 1" "\<lambda>j. Sleep (2 ^ j)" "nat ?mr"] by (simp add: min_def)
    show "fst (extract_single_article W f u) =
                (case generate_fallback_content W u of
                   Inl e \<Rightarrow> Some (Inl e)
                 | Inr fallback \<Rightarrow> Some (Inr (''Error: Extraction failed'', fallback)))"
      using open_eq(1) loop by simp
    show "snd (snd (extract_single_article W f u)) = map (\<lambda>j. Sleep (2 ^ j)) [0..<nat ?mr - 1]"
      using open_eq(2) loop by simp
  }
  {
    assume r: "fst (extract_single_article W f u) = Some (Inr (t', c'))"
    obtain x effs where loop: "retry_loop ?mr ?req 0 (nat ?mr) = (x, effs)" by (cases "retry_loop ?mr ?req 0 (nat ?mr)")
    show "length c' > 100 \<or> t' = ''Error: Extraction failed''"
    proof (cases x)
      case None
      with r open_eq(1) loop show ?thesis by (auto split: sum.splits)
    next
      case (Some tc)
      with r open_eq(1) loop have "retry_loop ?mr ?req 0 (nat ?mr) = (Some (t', c'), effs)" by simp
      then show ?thesis using retry_loop_Some by blast
    qed
  }
qed


text \<open>
  First attempt too short, second attempt long enough: one sleep of one second, then the
  article; and three short attempts: two sleeps, then the failure pair.
\<close>

theorem extract_single_article_threshold_witness:
  "\<not> fetcher_is_closed (new_fetcher default_config)
   \<and> gets_permit (example_web (\<lambda>u k. if k = 0 then Response 200 ''T'' ''too short''
        else Response 200 ''T'' ''Breaking news from the city council today as members voted to approve the new budget for public parks and roads'')) (new_fetcher default_config)
   \<and> session_error (example_web (\<lambda>u k. if k = 0 then Response 200 ''T'' ''too short''
        else Response 200 ''T'' ''Breaking news from the city council today as members voted to approve the new budget for public parks and roads'')) = None
   \<and> fst (extract_single_article
        (example_web (\<lambda>u k. if k = 0 then Response 200 ''T'' ''too short''
        else Response 200 ''T'' ''Breaking news from the city council today as members voted to approve the new budget for public parks and roads''))
        (new_fetcher default_config) ''http://a.example/x'')
      = Some (Inr (''T'', ''Breaking news from the city council today as members voted to approve the new budget for public parks and roads''))
   \<and> snd (snd (extract_single_article
        (example_web (\<lambda>u k. if k = 0 then Response 200 ''T'' ''too short''
        else Response 200 ''T'' ''Breaking news from the city council today as members voted to approve the new budget for public parks and roads''))
        (new_fetcher default_config) ''http://a.example/x''))
      = [Sleep 1]
   \<and> fst (extract_single_article (example_web (\<lambda>u k. Response 200 ''T'' ''too short''))
        (new_fetcher default_config) ''http://a.example/x'')
      = Some (Inr (''Error: Extraction failed'',
             ''Content from a.example could not be extracted. Source: http://a.example/x''))
   \<and> snd (snd (extract_single_article (example_web (\<lambda>u k. Response 200 ''T'' ''too short''))
        (new_fetcher default_config) ''http://a.example/x''))
      = [Sleep 1, Sleep 2]"
proof -
  let ?text = "''Breaking news from the city council today as members voted to approve the new budget for public parks and roads''"
  let ?W = "example_web (\<lambda>u k. if k = 0 then Response 200 ''T'' ''too short''
        else Response 200 ''T'' ?text)"
  let ?V = "example_web (\<lambda>u k. Response 200 ''T'' ''too short'')"
  let ?f = "new_fetcher default_config"
  let ?u = "''http://a.example/x''"
  have h1: "\<not> fetcher_is_closed ?f" by (simp add: new_fetcher_def)
  have h2: "session_error ?W = None" by (simp add: example_web_def)
  have h2': "session_error ?V = None" by (simp add: example_web_def)
  have p: "gets_permit ?W ?f"
    by (simp add: gets_permit_def get_semaphore_def acquire_def new_fetcher_def
        new_session_manager_def default_config_def)
  have p': "gets_permit ?V ?f"
    by (simp add: gets_permit_def get_semaphore_def acquire_def new_fetcher_def
        new_session_manager_def default_config_def)
  have mr: "nat (max_retries (config ?f)) = 3" by (simp add: new_fetcher_def default_config_def)
  have req: "request ?W (resolve_google_news_url ?W ?u) = (\<lambda>k. if k = 0 then Response 200 ''T'' ''too short''
        else Response 200 ''T'' ?text)"
    by (simp add: example_web_def)
  have req': "request ?V (resolve_google_news_url ?V ?u) = (\<lambda>k. Response 200 ''T'' ''too short'')"
    by (simp add: example_web_def)
  have pre: "(1::nat) < nat (max_retries (config ?f))
          \<and> (\<forall>j<1. \<not> attempt_succeeds (request ?W (resolve_google_news_url ?W ?u) j))
          \<and> extract_with_aiohttp (request ?W (resolve_google_news_url ?W ?u) 1) = Inr (''T'', ?text)
          \<and> length ?text > 100"
    unfolding mr req by (simp add: attempt_succeeds_def extract_with_aiohttp_def)
  have pre': "\<forall>j<nat (max_retries (config ?f)).
                \<not> attempt_succeeds (request ?V (resolve_google_news_url ?V ?u) j)"
    unfolding req' by (simp add: attempt_succeeds_def extract_with_aiohttp_def)
  have fb: "generate_fallback_content ?V ?u
              = Inr ''Content from a.example could not be extracted. Source: http://a.example/x''"
    by (simp add: generate_fallback_content_def example_web_def example_netloc_def)
  from extract_single_article_threshold [OF h1 p h2, of 1 ?u "''T''" ?text] pre
  have a: "fst (extract_single_article ?W ?f ?u) = Some (Inr (''T'', ?text))
      \<and> snd (snd (extract_single_article ?W ?f ?u)) = map (\<lambda>j. Sleep (2 ^ j)) [0..<1]"
    by blast
  from extract_single_article_threshold [OF h1 p' h2', of _ ?u] pre'
  have b: "fst (extract_single_article ?V ?f ?u) =
                (case generate_fallback_content ?V ?u of
                   Inl e \<Rightarrow> Some (Inl e)
                 | Inr fallback \<Rightarrow> Some (Inr (''Error: Extraction failed'', fallback)))
              \<and> snd (snd (extract_single_article ?V ?f ?u)) =
                  map (\<lambda>j. Sleep (2 ^ j)) [0..<nat (max_retries (config ?f)) - 1]"
    by blast
  have up: "[0..<nat (max_retries (config ?f)) - 1] = [0, 1]"
    unfolding mr by (simp add: upt_rec)
  from a b show ?thesis using h1 p h2 unfolding fb up by simp
qed

text \<open>
  C8 as stated fails. A body of 111 characters and 20 words, far below 100 words, is
  returned as a success.
\<close>

theorem extract_single_article_threshold_counterexample:
  "fst (extract_single_article
          (example_web (\<lambda>u k. Response 200 ''T'' ''Breaking news from the city council today as members voted to approve the new budget for public parks and roads''))
          (new_fetcher default_config) ''http://a.example/x'')
     = Some (Inr (''T'', ''Breaking news from the city council today as members voted to approve the new budget for public parks and roads''))
   \<and> length (split ''Breaking news from the city council today as members voted to approve the new budget for public parks and roads'') = 20"
proof
  show "fst (extract_single_article
          (example_web (\<lambda>u k. Response 200 ''T'' ''Breaking news from the city council today as members voted to approve the new budget for public parks and roads''))
          (new_fetcher default_config) ''http://a.example/x'')
     = Some (Inr (''T'', ''Breaking news from the city council today as members voted to approve the new budget for public parks and roads''))"
    by (simp add: extract_single_article_def example_web_def new_fetcher_def default_config_def
        get_session_def get_semaphore_def acquire_def new_session_manager_def
        resolve_google_news_url_def is_substring_def extract_with_aiohttp_def Let_def
        numeral_3_eq_3)
  show "length (split ''Breaking news from the city council today as members voted to approve the new budget for public parks and roads'') = 20"
    by code_simp
qed



section \<open>The topic loop\<close>






























































end
